theory Spec2Isabelle
  imports Complex_Main "HOL-Library.Sublist"
begin

section \<open>JavaScript values used by the component\<close>

subsection \<open>Numbers\<close>

text \<open>
  A JavaScript number is an IEEE 754 binary64 value. \<open>Fin q\<close> is the finite double whose
  exact value is the rational \<open>q\<close>. The sign of zero is not tracked: the component never
  divides by a parsed value; \<open>toFixed\<close> prints both zeros alike; \<open>||\<close>, \<open>isNaN\<close>, \<open><\<close> and
  \<open>>\<close> do not tell them apart; and a balance of the summary is never \<open>-0\<close>, since it
  starts at \<open>+0\<close> and what is added to it or subtracted from it has gone through \<open>|| 0\<close>.
  Strings are parsed as \<open>parseFloat\<close> does, with correct rounding.
\<close>

datatype jsnum = NaN | PInf | NInf | Fin rat

definition pow2 :: "int \<Rightarrow> rat" where
  "pow2 e = (if 0 \<le> e then 2 ^ nat e else 1 / 2 ^ nat (- e))"

definition pow10 :: "int \<Rightarrow> rat" where
  "pow10 e = (if 0 \<le> e then 10 ^ nat e else 1 / 10 ^ nat (- e))"

function bit_length :: "int \<Rightarrow> int" where
  "bit_length n = (if n \<le> 0 then 0 else 1 + bit_length (n div 2))"
  by pat_completeness auto
termination
  by (relation "measure nat") auto

declare bit_length.simps [simp del]

definition floor_log2 :: "rat \<Rightarrow> int" where
  \<comment> \<open>\<open>\<lfloor>log\<^sub>2 a\<rfloor>\<close> for \<open>a > 0\<close>, from the bit lengths of numerator and denominator.\<close>
  "floor_log2 a =
     (let (p, d) = quotient_of a;
          k = bit_length p - bit_length d
      in if pow2 k \<le> a then k else k - 1)"

definition round_half_even :: "rat \<Rightarrow> int" where
  "round_half_even r =
     (let f = \<lfloor>r\<rfloor>; d = r - of_int f
      in if d < 1 / 2 then f
         else if 1 / 2 < d then f + 1
         else if even f then f else f + 1)"

definition round_double :: "rat \<Rightarrow> jsnum" where
  \<comment> \<open>Round to nearest, ties to even: 53 significant bits, least exponent \<open>-1074\<close>,
      overflow to infinity from \<open>2\<^sup>1\<^sup>0\<^sup>2\<^sup>4\<close> on.\<close>
  "round_double q =
     (if q = 0 then Fin 0
      else let a = \<bar>q\<bar>;
               e = max (floor_log2 a - 52) (- 1074);
               m = round_half_even (a / pow2 e)
           in if 971 \<le> e \<and> 2 ^ 53 \<le> m * 2 ^ nat (e - 971)
              then (if 0 < q then PInf else NInf)
              else Fin ((if 0 < q then 1 else - 1) * of_int m * pow2 e))"

fun js_neg :: "jsnum \<Rightarrow> jsnum" where
  "js_neg NaN = NaN"
| "js_neg PInf = NInf"
| "js_neg NInf = PInf"
| "js_neg (Fin a) = Fin (- a)"

fun js_add :: "jsnum \<Rightarrow> jsnum \<Rightarrow> jsnum" where
  "js_add NaN _ = NaN"
| "js_add _ NaN = NaN"
| "js_add PInf NInf = NaN"
| "js_add NInf PInf = NaN"
| "js_add PInf _ = PInf"
| "js_add _ PInf = PInf"
| "js_add NInf _ = NInf"
| "js_add _ NInf = NInf"
| "js_add (Fin a) (Fin b) = round_double (a + b)"

definition js_sub :: "jsnum \<Rightarrow> jsnum \<Rightarrow> jsnum" where
  "js_sub x y = js_add x (js_neg y)"

fun js_div :: "jsnum \<Rightarrow> jsnum \<Rightarrow> jsnum" where
  \<comment> \<open>A zero divisor is taken as \<open>+0\<close>; the component divides by list lengths only.\<close>
  "js_div NaN _ = NaN"
| "js_div _ NaN = NaN"
| "js_div (Fin a) PInf = Fin 0"
| "js_div (Fin a) NInf = Fin 0"
| "js_div _ PInf = NaN"
| "js_div _ NInf = NaN"
| "js_div PInf (Fin b) = (if 0 \<le> b then PInf else NInf)"
| "js_div NInf (Fin b) = (if 0 \<le> b then NInf else PInf)"
| "js_div (Fin a) (Fin b) =
     (if b = 0 then (if a = 0 then NaN else if 0 < a then PInf else NInf)
      else round_double (a / b))"

fun js_lt :: "jsnum \<Rightarrow> jsnum \<Rightarrow> bool" where
  "js_lt (Fin a) (Fin b) = (a < b)"
| "js_lt NInf (Fin b) = True"
| "js_lt NInf PInf = True"
| "js_lt (Fin a) PInf = True"
| "js_lt _ _ = False"

definition js_gt :: "jsnum \<Rightarrow> jsnum \<Rightarrow> bool" where
  "js_gt x y = js_lt y x"

definition isNaN :: "jsnum \<Rightarrow> bool" where
  "isNaN x = (x = NaN)"

definition or_zero :: "jsnum \<Rightarrow> jsnum" where
  \<comment> \<open>\<open>x || 0\<close>: the falsy numbers are \<open>NaN\<close> and zero.\<close>
  "or_zero x = (if x = NaN \<or> x = Fin 0 then Fin 0 else x)"

definition of_count :: "nat \<Rightarrow> jsnum" where
  \<comment> \<open>An array length as a number: below \<open>2\<^sup>3\<^sup>2\<close>, hence exact.\<close>
  "of_count n = Fin (of_nat n)"

subsection \<open>Strings\<close>

text \<open>
  A string is a list of code units below 256. \<open>is_ws\<close> holds of the white space and
  line terminators of that range, which \<open>trim\<close> and \<open>parseFloat\<close> skip.
\<close>

definition is_ws :: "char \<Rightarrow> bool" where
  "is_ws c = (of_char c \<in> {9, 10, 11, 12, 13, 32, 160 :: nat})"

definition is_digit :: "char \<Rightarrow> bool" where
  "is_digit c = (48 \<le> (of_char c :: nat) \<and> (of_char c :: nat) \<le> 57)"

definition trim :: "string \<Rightarrow> string" where
  "trim s = rev (dropWhile is_ws (rev (dropWhile is_ws s)))"

definition digits_val :: "string \<Rightarrow> int" where
  "digits_val ds = foldl (\<lambda>n c. 10 * n + (of_char c - 48)) 0 ds"

definition digit_char :: "int \<Rightarrow> char" where
  "digit_char d = char_of (48 + d)"

function dec_digits :: "int \<Rightarrow> string" where
  "dec_digits n = (if n < 10 then [digit_char n] else dec_digits (n div 10) @ [digit_char (n mod 10)])"
  by pat_completeness auto
termination
  by (relation "measure nat") auto

declare dec_digits.simps [simp del]

definition int_toString :: "int \<Rightarrow> string" where
  \<comment> \<open>\<open>toString\<close> of an integer-valued number such as \<open>Date.now()\<close>.\<close>
  "int_toString n = (if n < 0 then CHR ''-'' # dec_digits (- n) else dec_digits n)"

definition exponent_part :: "string \<Rightarrow> int" where
  \<comment> \<open>The value of an exponent part at the head of the rest, 0 when there is none.\<close>
  "exponent_part r =
     (case r of
        [] \<Rightarrow> 0
      | c # r1 \<Rightarrow>
          if c = CHR ''e'' \<or> c = CHR ''E'' then
            (let (sgn, r2) =
                   (case r1 of
                      [] \<Rightarrow> (1, r1)
                    | d # r3 \<Rightarrow>
                        if d = CHR ''+'' then (1, r3)
                        else if d = CHR ''-'' then (- 1, r3)
                        else (1, r1));
                 ds = takeWhile is_digit r2
             in if ds = [] then 0 else sgn * digits_val ds)
          else 0)"

definition unsigned_decimal :: "string \<Rightarrow> rat option" where
  \<comment> \<open>The mathematical value of the longest prefix that is a decimal literal.\<close>
  "unsigned_decimal u =
     (let ip = takeWhile is_digit u; r1 = dropWhile is_digit u
      in case r1 of
           [] \<Rightarrow> if ip = [] then None else Some (of_int (digits_val ip))
         | c # r2 \<Rightarrow>
             if c = CHR ''.'' then
               (let fp = takeWhile is_digit r2; r3 = dropWhile is_digit r2
                in if ip = [] \<and> fp = [] then None
                   else Some (of_int (digits_val (ip @ fp))
                              * pow10 (exponent_part r3 - int (length fp))))
             else if ip = [] then None
             else Some (of_int (digits_val ip) * pow10 (exponent_part r1)))"

definition parseFloat :: "string \<Rightarrow> jsnum" where
  "parseFloat s =
     (let t = dropWhile is_ws s;
          (neg, u) =
            (case t of
               [] \<Rightarrow> (False, t)
             | c # r \<Rightarrow>
                 if c = CHR ''-'' then (True, r)
                 else if c = CHR ''+'' then (False, r)
                 else (False, t))
      in if take 8 u = ''Infinity'' then (if neg then NInf else PInf)
         else case unsigned_decimal u of
                None \<Rightarrow> NaN
              | Some q \<Rightarrow> round_double (if neg then - q else q))"

fun shortest_digits :: "nat \<Rightarrow> int \<Rightarrow> rat \<Rightarrow> int \<Rightarrow> int \<times> int" where
  \<comment> \<open>The fewest digits \<open>s\<close> (at least \<open>k\<close>) and the decimal exponent \<open>n\<close> such that
      \<open>s \<times> 10\<^bsup>n - k\<^esup>\<close> rounds to the double \<open>x\<close>; 17 digits always do.\<close>
  "shortest_digits 0 k x n = (\<lfloor>x / pow10 (n - k)\<rfloor>, n)"
| "shortest_digits (Suc fuel) k x n =
     (let sc = pow10 (n - k);
          lo = \<lfloor>x / sc\<rfloor>;
          hi = lo + 1;
          oklo = (round_double (of_int lo * sc) = Fin x);
          okhi = (round_double (of_int hi * sc) = Fin x);
          dlo = x - of_int lo * sc;
          dhi = of_int hi * sc - x
      in if oklo \<and> okhi then
           (if dlo < dhi \<or> (dlo = dhi \<and> even lo) then (lo, n)
            else if hi = 10 ^ nat k then (1, n + 1) else (hi, n))
         else if oklo then (lo, n)
         else if okhi then (if hi = 10 ^ nat k then (1, n + 1) else (hi, n))
         else shortest_digits fuel (k + 1) x n)"

definition toString_large :: "rat \<Rightarrow> string" where
  \<comment> \<open>\<open>Number::toString\<close> of a finite \<open>x \<ge> 10\<^sup>2\<^sup>1\<close>: exponential notation.\<close>
  "toString_large x =
     (let n0 = int (length (dec_digits \<lfloor>x\<rfloor>));
          (s, n) = shortest_digits 17 1 x n0;
          ds = dec_digits s
      in (if length ds = 1 then ds else hd ds # CHR ''.'' # tl ds) @ ''e+'' @ dec_digits (n - 1))"

definition toFixed2 :: "jsnum \<Rightarrow> string" where
  \<comment> \<open>\<open>x.toFixed(2)\<close>\<close>
  "toFixed2 x =
     (case x of
        NaN \<Rightarrow> ''NaN''
      | PInf \<Rightarrow> ''Infinity''
      | NInf \<Rightarrow> ''-Infinity''
      | Fin q \<Rightarrow>
          (let s = (if q < 0 then ''-'' else ''''); a = \<bar>q\<bar>
           in if 10 ^ 21 \<le> a then s @ toString_large a
              else let m = dec_digits \<lfloor>a * 100 + 1 / 2\<rfloor>;
                       m = replicate (3 - length m) CHR ''0'' @ m
                   in s @ take (length m - 2) m @ ''.'' @ drop (length m - 2) m))"

subsection \<open>Objects\<close>

text \<open>
  A \<open>Record<string, T>\<close> is the list of its own properties in the order in which
  \<open>Object.entries\<close>, \<open>Object.values\<close> and the spread operator visit them: keys that are
  array indices first, in ascending order, then the other keys in order of creation.
  These, object literals with computed keys, \<open>Object.fromEntries\<close> and rest patterns
  deal with own properties only, whatever the key. The summary alone is read and written
  through \<open>summary[k]\<close>, where inherited properties show; see \<open>add_assign\<close>.
\<close>

type_synonym 'v obj = "(string \<times> 'v) list"

definition array_index :: "string \<Rightarrow> int option" where
  "array_index k =
     (if k \<noteq> [] \<and> list_all is_digit k \<and> (if hd k = CHR ''0'' then k = ''0'' else True)
         \<and> digits_val k < 2 ^ 32 - 1
      then Some (digits_val k) else None)"

definition enumerated_before :: "string \<Rightarrow> string \<Rightarrow> bool" where
  "enumerated_before k k' =
     (case array_index k of
        None \<Rightarrow> False
      | Some i \<Rightarrow> (case array_index k' of None \<Rightarrow> True | Some j \<Rightarrow> i < j))"

fun obj_create :: "string \<Rightarrow> 'v \<Rightarrow> 'v obj \<Rightarrow> 'v obj" where
  "obj_create k v [] = [(k, v)]"
| "obj_create k v (e # es) =
     (if enumerated_before k (fst e) then (k, v) # e # es else e # obj_create k v es)"

definition obj_get :: "'v obj \<Rightarrow> string \<Rightarrow> 'v option" where
  \<comment> \<open>\<open>o[k]\<close>, \<open>None\<close> for \<open>undefined\<close>\<close>
  "obj_get ob k = map_of ob k"

definition obj_keys :: "'v obj \<Rightarrow> string list" where
  "obj_keys ob = map fst ob"

definition obj_values :: "'v obj \<Rightarrow> 'v list" where
  "obj_values ob = map snd ob"

definition obj_set :: "string \<Rightarrow> 'v \<Rightarrow> 'v obj \<Rightarrow> 'v obj" where
  \<comment> \<open>\<open>o[k] = v\<close>: an existing property keeps its place.\<close>
  "obj_set k v ob =
     (if k \<in> set (obj_keys ob) then map (\<lambda>e. if fst e = k then (k, v) else e) ob
      else obj_create k v ob)"

definition obj_omit :: "string \<Rightarrow> 'v obj \<Rightarrow> 'v obj" where
  \<comment> \<open>\<open>const { [k]: removed, ...rest } = o\<close>\<close>
  "obj_omit k ob = filter (\<lambda>e. fst e \<noteq> k) ob"

definition fromEntries :: "(string \<times> 'v) list \<Rightarrow> 'v obj" where
  "fromEntries es = foldl (\<lambda>ob e. obj_set (fst e) (snd e) ob) [] es"

section \<open>The component's state\<close>

text \<open>
  The fields \<open>id\<close> and \<open>name\<close> of a participant are \<open>p_id\<close> and \<open>p_name\<close>, the field \<open>id\<close>
  of a transaction is \<open>t_id\<close>: \<open>id\<close> is the identity function of HOL.
\<close>

record Participant =
  p_id :: string
  p_name :: string

record Transaction =
  t_id :: string
  title :: string
  amount :: string
  payer :: string
  contributions :: "string obj"
  isSplitBill :: bool

text \<open>
  The five \<open>useState\<close> cells. \<open>currentTransaction\<close> is \<open>None\<close> when the cell holds
  \<open>undefined\<close>, which \<open>editTransaction\<close> can store; \<open>editingTransactionId\<close> is \<open>None\<close>
  for \<open>null\<close>.
\<close>

record state =
  participants :: "Participant list"
  transactions :: "Transaction list"
  newParticipant :: string
  currentTransaction :: "Transaction option"
  editingTransactionId :: "string option"

datatype error = TypeError

datatype field = Title | Amount | Payer

section \<open>The handlers\<close>


definition initial_state :: "Participant list \<Rightarrow> state" where
  \<comment> \<open>The initial values of the cells; \<open>stored\<close> is the list read from \<open>localStorage\<close>.\<close>
  "initial_state stored =
     \<lparr>participants = stored, transactions = [], newParticipant = [],
      currentTransaction = Some \<lparr>t_id = [], title = [], amount = [], payer = [],
                                 contributions = [], isSplitBill = False\<rparr>,
      editingTransactionId = None\<rparr>"

definition setNewParticipant :: "string \<Rightarrow> state \<Rightarrow> error + state" where
  "setNewParticipant v s = Inr (s\<lparr>newParticipant := v\<rparr>)"

definition and_then :: "error + state \<Rightarrow> (state \<Rightarrow> error + state) \<Rightarrow> error + state" where
  \<comment> \<open>One event after another.\<close>
  "and_then r h = (case r of Inl e \<Rightarrow> Inl e | Inr s \<Rightarrow> h s)"

definition recalculateSplitBill :: "Participant list \<Rightarrow> string \<Rightarrow> string obj" where
  \<comment> \<open>The first argument is the \<open>participants\<close> of the closure.\<close>
  "recalculateSplitBill ps amt =
     (let participantCount = length ps
      in if participantCount = 0 then []
         else let splitAmount = toFixed2 (js_div (parseFloat amt) (of_count participantCount))
              in fromEntries (map (\<lambda>p. (p_id p, splitAmount)) ps))"

definition addParticipant :: "int \<Rightarrow> state \<Rightarrow> error + state" where
  "addParticipant now s =
     (if trim (newParticipant s) \<noteq> [] then
        (case currentTransaction s of
           None \<Rightarrow> Inl TypeError
         | Some prev \<Rightarrow>
             (let newParticipantObj = \<lparr>p_id = int_toString now, p_name = trim (newParticipant s)\<rparr>
              in Inr (s\<lparr>participants := participants s @ [newParticipantObj],
                        newParticipant := [],
                        currentTransaction := Some (prev\<lparr>contributions :=
                          obj_set (p_id newParticipantObj)
                            (if isSplitBill prev
                             then toFixed2 (js_div (parseFloat (amount prev))
                                                   (of_count (length (participants s) + 1)))
                             else [])
                            (contributions prev)\<rparr>)\<rparr>)))
      else Inr s)"

definition removeParticipant :: "string \<Rightarrow> state \<Rightarrow> error + state" where
  \<comment> \<open>\<open>recalculateSplitBill\<close> is the function of the render the handler belongs to: it
      reads the \<open>participants\<close> of \<open>s\<close>, not the filtered list.\<close>
  "removeParticipant i s =
     (case currentTransaction s of
        None \<Rightarrow> Inl TypeError
      | Some prev \<Rightarrow>
          (let restContributions = obj_omit i (contributions prev);
               updatedTransaction = prev\<lparr>contributions := restContributions\<rparr>;
               updatedTransaction =
                 (if isSplitBill prev
                  then updatedTransaction\<lparr>contributions :=
                         recalculateSplitBill (participants s) (amount prev)\<rparr>
                  else updatedTransaction)
           in Inr (s\<lparr>participants := filter (\<lambda>p. p_id p \<noteq> i) (participants s),
                     currentTransaction := Some updatedTransaction\<rparr>)))"

definition set_field :: "field \<Rightarrow> string \<Rightarrow> Transaction \<Rightarrow> Transaction" where
  "set_field f v t =
     (case f of Title \<Rightarrow> t\<lparr>title := v\<rparr> | Amount \<Rightarrow> t\<lparr>amount := v\<rparr> | Payer \<Rightarrow> t\<lparr>payer := v\<rparr>)"

definition updateCurrentTransaction :: "field \<Rightarrow> string \<Rightarrow> state \<Rightarrow> error + state" where
  "updateCurrentTransaction f v s =
     (case currentTransaction s of
        None \<Rightarrow> Inl TypeError
      | Some prev \<Rightarrow>
          (let updatedTransaction = set_field f v prev;
               updatedTransaction =
                 (if f = Amount \<and> isSplitBill prev
                  then updatedTransaction\<lparr>contributions := recalculateSplitBill (participants s) v\<rparr>
                  else updatedTransaction)
           in Inr (s\<lparr>currentTransaction := Some updatedTransaction\<rparr>)))"

definition updateContribution :: "string \<Rightarrow> string \<Rightarrow> state \<Rightarrow> error + state" where
  "updateContribution participantId v s =
     (case currentTransaction s of
        None \<Rightarrow> Inl TypeError
      | Some prev \<Rightarrow>
          Inr (s\<lparr>currentTransaction :=
                   Some (prev\<lparr>contributions := obj_set participantId v (contributions prev)\<rparr>)\<rparr>))"

definition toggleSplitBill :: "state \<Rightarrow> error + state" where
  "toggleSplitBill s =
     (case currentTransaction s of
        None \<Rightarrow> Inl TypeError
      | Some prev \<Rightarrow>
          (let isSplitBill' = \<not> isSplitBill prev;
               contributions' =
                 (if isSplitBill' then recalculateSplitBill (participants s) (amount prev)
                  else contributions prev)
           in Inr (s\<lparr>currentTransaction :=
                        Some (prev\<lparr>isSplitBill := isSplitBill', contributions := contributions'\<rparr>)\<rparr>)))"

definition empty_draft :: "Participant list \<Rightarrow> Transaction" where
  \<comment> \<open>The object literal that \<open>submitTransaction\<close> stores in the draft.\<close>
  "empty_draft ps =
     \<lparr>t_id = [], title = [], amount = [], payer = [],
      contributions = fromEntries (map (\<lambda>p. (p_id p, [])) ps),
      isSplitBill = False\<rparr>"

definition editing :: "state \<Rightarrow> string option" where
  \<comment> \<open>The id when \<open>editingTransactionId\<close> is truthy: neither \<open>null\<close> nor the empty string.\<close>
  "editing s =
     (case editingTransactionId s of
        None \<Rightarrow> None
      | Some e \<Rightarrow> if e = [] then None else Some e)"

definition submitTransaction :: "int \<Rightarrow> state \<Rightarrow> error + state" where
  "submitTransaction now s =
     (case currentTransaction s of
        None \<Rightarrow> Inl TypeError
      | Some cur \<Rightarrow>
          (let s1 =
                 (case editing s of
                    Some e \<Rightarrow>
                      s\<lparr>transactions :=
                          map (\<lambda>t. if t_id t = e then cur\<lparr>t_id := e\<rparr> else t) (transactions s),
                        editingTransactionId := None\<rparr>
                  | None \<Rightarrow>
                      s\<lparr>transactions := transactions s @ [cur\<lparr>t_id := int_toString now\<rparr>]\<rparr>)
           in Inr (s1\<lparr>currentTransaction := Some (empty_draft (participants s))\<rparr>)))"

definition editTransaction :: "string \<Rightarrow> state \<Rightarrow> state" where
  "editTransaction i s =
     (let transactionToEdit = find (\<lambda>t. t_id t = i) (transactions s)
      in s\<lparr>currentTransaction := transactionToEdit, editingTransactionId := Some i\<rparr>)"

definition deleteTransaction :: "string \<Rightarrow> state \<Rightarrow> state" where
  "deleteTransaction i s = s\<lparr>transactions := filter (\<lambda>t. t_id t \<noteq> i) (transactions s)\<rparr>"

section \<open>The derived values\<close>

text \<open>
  \<open>calculateSummary\<close> reads and writes \<open>summary[k]\<close> for keys that need not be own
  properties of \<open>summary\<close>, so that the properties inherited from \<open>Object.prototype\<close>
  show. A read of a key with no own property yields \<open>undefined\<close>, or the inherited value:
  a built-in function for the eleven names of \<open>inherited_function\<close>, and for
  \<open>__proto__\<close> the prototype object, through an accessor whose setter ignores every
  value that is not an object. A function plus a number is a string, the source text of
  the function followed by the number; \<open>Text\<close> stands for such a string, whose content is
  not modelled and which converts to the number \<open>NaN\<close>.
\<close>

datatype summary_value = Num jsnum | Text

definition inherited_function :: "string \<Rightarrow> bool" where
  "inherited_function k =
     (k \<in> set [''constructor'', ''hasOwnProperty'', ''isPrototypeOf'', ''propertyIsEnumerable'',
               ''toLocaleString'', ''toString'', ''valueOf'', ''__defineGetter__'',
               ''__defineSetter__'', ''__lookupGetter__'', ''__lookupSetter__''])"

definition add_assign :: "string \<Rightarrow> jsnum \<Rightarrow> summary_value obj \<Rightarrow> summary_value obj" where
  \<comment> \<open>\<open>summary[k] += v\<close>. With no own property \<open>k\<close>: \<open>__proto__\<close> is left to the inherited
      setter, which stores nothing; a function name gets the string; any other key gets
      \<open>undefined + v\<close>, which is \<open>NaN\<close>.\<close>
  "add_assign k v summary =
     (case obj_get summary k of
        Some (Num b) \<Rightarrow> obj_set k (Num (js_add b v)) summary
      | Some Text \<Rightarrow> obj_set k Text summary
      | None \<Rightarrow>
          if k = ''__proto__'' then summary
          else if inherited_function k then obj_set k Text summary
          else obj_set k (Num NaN) summary)"

definition sub_assign :: "string \<Rightarrow> jsnum \<Rightarrow> summary_value obj \<Rightarrow> summary_value obj" where
  \<comment> \<open>\<open>summary[k] -= v\<close>. A string, a function and \<open>undefined\<close> all convert to \<open>NaN\<close>.\<close>
  "sub_assign k v summary =
     (case obj_get summary k of
        Some (Num b) \<Rightarrow> obj_set k (Num (js_sub b v)) summary
      | Some Text \<Rightarrow> obj_set k (Num NaN) summary
      | None \<Rightarrow>
          if k = ''__proto__'' then summary
          else obj_set k (Num NaN) summary)"

definition summarize_transaction :: "summary_value obj \<Rightarrow> Transaction \<Rightarrow> summary_value obj" where
  \<comment> \<open>The body of \<open>transactions.forEach\<close>.\<close>
  "summarize_transaction summary t =
     (let summary1 =
            (if payer t \<noteq> [] then add_assign (payer t) (or_zero (parseFloat (amount t))) summary
             else summary)
      in foldl (\<lambda>sm e. sub_assign (fst e) (or_zero (parseFloat (snd e))) sm)
               summary1 (contributions t))"

definition calculateSummary :: "Participant list \<Rightarrow> Transaction list \<Rightarrow> summary_value obj" where
  "calculateSummary ps ts =
     (let summary = fromEntries (map (\<lambda>p. (p_id p, Num (Fin 0))) ps)
      in foldl summarize_transaction summary ts)"

definition msg_exceed :: string where
  "msg_exceed = ''Total contributions exceed the transaction amount.''"

definition msg_less :: string where
  "msg_less = ''Total contributions are less than the transaction amount.''"

definition total_contributions :: "Transaction \<Rightarrow> jsnum" where
  \<comment> \<open>The \<open>reduce\<close> over \<open>Object.values(transaction.contributions)\<close>.\<close>
  "total_contributions t =
     foldl (\<lambda>sum v. let contributionAmount = parseFloat v
                     in js_add sum (if isNaN contributionAmount then Fin 0 else contributionAmount))
           (Fin 0) (obj_values (contributions t))"

definition validateContributions :: "Transaction \<Rightarrow> string" where
  "validateContributions t =
     (let totalAmount = or_zero (parseFloat (amount t));
          totalContributions = total_contributions t
      in if js_gt totalContributions totalAmount then msg_exceed
         else if js_lt totalContributions totalAmount then msg_less
         else [])"

section \<open>Definitions for the statements\<close>

definition spec_split_amount :: "string \<Rightarrow> nat \<Rightarrow> string" where
  \<comment> \<open>The entry as the specification words it: the amount, a non-numeric one counting
      as 0, divided by the participant count and printed with two decimals.\<close>
  "spec_split_amount amt n =
     (let a = parseFloat amt
      in toFixed2 (js_div (if isNaN a then Fin 0 else a) (of_count n)))"

definition touches :: "string \<Rightarrow> Transaction \<Rightarrow> bool" where
  \<comment> \<open>The transaction names \<open>k\<close> as its payer or as a key of its contributions.\<close>
  "touches k t = ((payer t \<noteq> [] \<and> payer t = k) \<or> obj_get (contributions t) k \<noteq> None)"

definition plus_number :: "string \<Rightarrow> summary_value option \<Rightarrow> jsnum \<Rightarrow> summary_value option" where
  \<comment> \<open>The own property \<open>k\<close> of the summary after \<open>summary[k] += v\<close>, from the one before;
      \<open>None\<close> is no own property.\<close>
  "plus_number k b v =
     (case b of
        Some (Num x) \<Rightarrow> Some (Num (js_add x v))
      | Some Text \<Rightarrow> Some Text
      | None \<Rightarrow>
          if k = ''__proto__'' then None
          else if inherited_function k then Some Text
          else Some (Num NaN))"

definition minus_number :: "string \<Rightarrow> summary_value option \<Rightarrow> jsnum \<Rightarrow> summary_value option" where
  \<comment> \<open>The same for \<open>summary[k] -= v\<close>.\<close>
  "minus_number k b v =
     (case b of
        Some (Num x) \<Rightarrow> Some (Num (js_sub x v))
      | Some Text \<Rightarrow> Some (Num NaN)
      | None \<Rightarrow> if k = ''__proto__'' then None else Some (Num NaN))"

definition balance_step ::
  "string \<Rightarrow> summary_value option \<Rightarrow> Transaction \<Rightarrow> summary_value option" where
  \<comment> \<open>What one transaction does to the entry of \<open>k\<close> in the summary.\<close>
  "balance_step k b t =
     (let b1 = (if payer t \<noteq> [] \<and> payer t = k
                then plus_number k b (or_zero (parseFloat (amount t)))
                else b)
      in case obj_get (contributions t) k of
           None \<Rightarrow> b1
         | Some c \<Rightarrow> minus_number k b1 (or_zero (parseFloat c)))"

definition balance_number :: "string \<Rightarrow> jsnum \<Rightarrow> Transaction \<Rightarrow> jsnum" where
  \<comment> \<open>What one transaction does to a balance that is a number: the parsed amount is
      added if \<open>k\<close> is the payer, the parsed contribution of \<open>k\<close> is subtracted.\<close>
  "balance_number k x t =
     (let x1 = (if payer t \<noteq> [] \<and> payer t = k
                then js_add x (or_zero (parseFloat (amount t)))
                else x)
      in case obj_get (contributions t) k of
           None \<Rightarrow> x1
         | Some c \<Rightarrow> js_sub x1 (or_zero (parseFloat c)))"

subsection \<open>Sample states\<close>

definition ann :: Participant where
  "ann = \<lparr>p_id = ''A'', p_name = ''Ann''\<rparr>"

definition bob :: Participant where
  "bob = \<lparr>p_id = ''B'', p_name = ''Bob''\<rparr>"

definition split_draft :: Transaction where
  "split_draft =
     \<lparr>t_id = [], title = [], amount = ''100'', payer = [],
      contributions = [(''A'', ''50.00''), (''B'', ''50.00'')], isSplitBill = True\<rparr>"

definition split_state :: state where
  \<comment> \<open>Two participants, amount 100 typed, equal split switched on.\<close>
  "split_state =
     \<lparr>participants = [ann, bob], transactions = [], newParticipant = [],
      currentTransaction = Some split_draft, editingTransactionId = None\<rparr>"

definition solo_state :: state where
  \<comment> \<open>One participant, amount 100 typed, equal split switched on, a second name typed.\<close>
  "solo_state =
     \<lparr>participants = [ann], transactions = [], newParticipant = ''Bob'',
      currentTransaction =
        Some \<lparr>t_id = [], title = [], amount = ''100'', payer = [],
              contributions = [(''A'', ''100.00'')], isSplitBill = True\<rparr>,
      editingTransactionId = None\<rparr>"

definition lunch :: Transaction where
  "lunch = \<lparr>t_id = ''1700000000000'', title = ''lunch'', amount = ''100'', payer = ''A'',
            contributions = [(''A'', ''50''), (''B'', ''50'')], isSplitBill = False\<rparr>"

definition dinner :: Transaction where
  "dinner = lunch\<lparr>title := ''dinner''\<rparr>"

definition unbounded :: Transaction where
  "unbounded = lunch\<lparr>contributions := [(''A'', ''Infinity''), (''B'', ''-Infinity'')]\<rparr>"

definition inherited_names :: Transaction where
  \<comment> \<open>A transaction whose payer and contribution key name properties of
      \<open>Object.prototype\<close>.\<close>
  "inherited_names =
     \<lparr>t_id = ''1700000000002'', title = ''tea'', amount = ''5'', payer = ''toString'',
      contributions = [(''__proto__'', ''5'')], isSplitBill = False\<rparr>"

definition ledger_state :: state where
  \<comment> \<open>After \<open>lunch\<close> was submitted at clock reading 1700000000000.\<close>
  "ledger_state =
     \<lparr>participants = [ann, bob], transactions = [lunch], newParticipant = [],
      currentTransaction = Some (empty_draft [ann, bob]), editingTransactionId = None\<rparr>"

definition edit_state :: state where
  \<comment> \<open>\<open>lunch\<close> loaded for editing, its title retyped.\<close>
  "edit_state =
     \<lparr>participants = [ann, bob], transactions = [lunch], newParticipant = [],
      currentTransaction = Some dinner, editingTransactionId = Some ''1700000000000''\<rparr>"

section \<open>Objects: keys and lookups\<close>

lemma obj_keys_Nil [simp]: "obj_keys [] = []"
  by (simp add: obj_keys_def)

lemma obj_create_keys: "set (obj_keys (obj_create k v ob)) = insert k (set (obj_keys ob))"
  by (induction ob) (auto simp: obj_keys_def)

lemma obj_create_distinct:
  "k \<notin> set (obj_keys ob) \<Longrightarrow> distinct (obj_keys ob) \<Longrightarrow> distinct (obj_keys (obj_create k v ob))"
proof (induction ob)
  case Nil
  then show ?case by (simp add: obj_keys_def)
next
  case (Cons e es)
  have "fst e \<notin> set (obj_keys (obj_create k v es))"
    using Cons.prems by (auto simp: obj_create_keys) (auto simp: obj_keys_def)
  with Cons show ?case
    by (auto simp: obj_keys_def)
qed

lemma obj_create_get:
  "k \<notin> set (obj_keys ob) \<Longrightarrow> obj_get (obj_create k v ob) k' = (if k' = k then Some v else obj_get ob k')"
  by (induction ob) (auto simp: obj_keys_def obj_get_def)

lemma map_of_replace:
  "map_of (map (\<lambda>e. if fst e = k then (k, v) else e) ob) k' =
     (if k' = k \<and> k \<in> fst ` set ob then Some v else map_of ob k')"
proof (induction ob)
  case Nil
  then show ?case by simp
next
  case (Cons e es)
  show ?case
  proof (cases "fst e = k")
    case True
    with Cons show ?thesis by (cases e) auto
  next
    case False
    with Cons show ?thesis by (cases e) (fastforce simp: image_iff)
  qed
qed

lemma obj_keys_replace: "obj_keys (map (\<lambda>e. if fst e = k then (k, v) else e) ob) = obj_keys ob"
  by (induction ob) (auto simp: obj_keys_def)

lemma obj_set_keys: "set (obj_keys (obj_set k v ob)) = insert k (set (obj_keys ob))"
  by (auto simp: obj_set_def obj_keys_replace obj_create_keys)

lemma obj_set_distinct: "distinct (obj_keys ob) \<Longrightarrow> distinct (obj_keys (obj_set k v ob))"
  by (simp add: obj_set_def obj_keys_replace obj_create_distinct)

lemma obj_set_get: "obj_get (obj_set k v ob) k' = (if k' = k then Some v else obj_get ob k')"
proof (cases "k \<in> set (obj_keys ob)")
  case True
  then have "k \<in> fst ` set ob" by (simp add: obj_keys_def)
  with True show ?thesis
    by (simp add: obj_set_def obj_get_def map_of_replace)
next
  case False
  then show ?thesis by (simp add: obj_set_def obj_create_get)
qed

lemma obj_get_keys: "obj_get ob k = None \<longleftrightarrow> k \<notin> set (obj_keys ob)"
  by (simp add: obj_get_def obj_keys_def map_of_eq_None_iff)

lemma foldl_obj_set_keys:
  "set (obj_keys (foldl (\<lambda>ob e. obj_set (fst e) (snd e) ob) ob0 es)) = set (obj_keys ob0) \<union> fst ` set es"
  by (induction es arbitrary: ob0) (auto simp: obj_set_keys)

lemma foldl_obj_set_distinct:
  "distinct (obj_keys ob0) \<Longrightarrow> distinct (obj_keys (foldl (\<lambda>ob e. obj_set (fst e) (snd e) ob) ob0 es))"
  by (induction es arbitrary: ob0) (auto simp: obj_set_distinct)

lemma foldl_obj_set_const:
  "\<forall>e \<in> set es. snd e = v \<Longrightarrow>
   obj_get (foldl (\<lambda>ob e. obj_set (fst e) (snd e) ob) ob0 es) k =
     (if k \<in> fst ` set es then Some v else obj_get ob0 k)"
proof (induction es arbitrary: ob0)
  case Nil
  then show ?case by simp
next
  case (Cons e es)
  then show ?case by (auto simp: obj_set_get)
qed

lemma fromEntries_keys: "set (obj_keys (fromEntries es)) = fst ` set es"
  by (simp add: fromEntries_def foldl_obj_set_keys)

lemma fromEntries_distinct: "distinct (obj_keys (fromEntries es))"
  by (simp add: fromEntries_def foldl_obj_set_distinct)

lemma fromEntries_const:
  "obj_get (fromEntries (map (\<lambda>p. (f p, v)) ps)) k = (if k \<in> f ` set ps then Some v else None)"
proof -
  have "\<forall>e \<in> set (map (\<lambda>p. (f p, v)) ps). snd e = v" by simp
  then show ?thesis
    unfolding fromEntries_def
    by (subst foldl_obj_set_const [where v = v]) (auto simp: obj_get_def image_image)
qed

section \<open>The split calculator\<close>

lemma recalculateSplitBill_get:
  "ps \<noteq> [] \<Longrightarrow> obj_get (recalculateSplitBill ps amt) k =
     (if k \<in> p_id ` set ps
      then Some (toFixed2 (js_div (parseFloat amt) (of_count (length ps)))) else None)"
  by (simp add: recalculateSplitBill_def Let_def fromEntries_const)

lemma recalculateSplitBill_keys: "set (obj_keys (recalculateSplitBill ps amt)) = p_id ` set ps"
  by (simp add: recalculateSplitBill_def Let_def fromEntries_keys image_image)

lemma recalculateSplitBill_distinct: "distinct (obj_keys (recalculateSplitBill ps amt))"
  by (simp add: recalculateSplitBill_def Let_def fromEntries_distinct)

text \<open>
  On an amount that parses to a number the code does what the specification says: one
  entry per participant id, each the amount over the count with two decimals.
\<close>

lemma recalculateSplitBill_numeric:
  assumes "ps \<noteq> []" and "\<not> isNaN (parseFloat amt)"
  shows "distinct (obj_keys (recalculateSplitBill ps amt)) \<and>
         set (obj_keys (recalculateSplitBill ps amt)) = p_id ` set ps \<and>
         (\<forall>p \<in> set ps. obj_get (recalculateSplitBill ps amt) (p_id p) =
            Some (spec_split_amount amt (length ps)))"
  using assms
  by (simp add: recalculateSplitBill_get recalculateSplitBill_keys recalculateSplitBill_distinct
      spec_split_amount_def Let_def)

lemma recalculateSplitBill_example:
  "recalculateSplitBill [ann, bob] ''100'' = [(''A'', ''50.00''), (''B'', ''50.00'')]"
  by code_simp

text \<open>
  The empty amount reaches \<open>recalculateSplitBill\<close> when equal split is switched on
  before an amount is typed.
\<close>

lemma empty_amount_reachable:
  "toggleSplitBill (initial_state [ann]) =
     Inr \<lparr>participants = [ann], transactions = [], newParticipant = [],
          currentTransaction =
            Some \<lparr>t_id = [], title = [], amount = [], payer = [],
                  contributions = [(''A'', ''NaN'')], isSplitBill = True\<rparr>,
          editingTransactionId = None\<rparr>"
  by code_simp

text \<open>
  Claim C1 fails on the code. At the empty amount, with Ann registered,
  \<open>recalculateSplitBill\<close> returns the entry \<open>NaN\<close> for Ann: the amount is parsed without
  the \<open>|| 0\<close> of \<open>calculateSummary\<close> and \<open>validateContributions\<close>. The entry the claim
  describes, the amount counted as 0 over one participant with two decimals, is \<open>0.00\<close>.
\<close>

theorem recalculateSplitBill_empty_amount:
  "recalculateSplitBill [ann] '''' = [(''A'', ''NaN'')] \<and> spec_split_amount '''' 1 = ''0.00''"
  by code_simp

section \<open>The participant registry\<close>

text \<open>The sample states are states of the running component.\<close>

lemma split_state_reachable:
  "and_then (updateCurrentTransaction Amount ''100'' (initial_state [ann, bob])) toggleSplitBill
     = Inr split_state"
  by code_simp

lemma solo_state_reachable:
  "and_then (and_then (updateCurrentTransaction Amount ''100'' (initial_state [ann])) toggleSplitBill)
      (setNewParticipant ''Bob'')
     = Inr solo_state"
  by code_simp

text \<open>
  In equal-split mode \<open>removeParticipant\<close> recomputes the split over the participants of
  the state it starts from, the removed one included; otherwise it only drops the key.
\<close>

lemma removeParticipant_split:
  assumes "currentTransaction s = Some prev" and "isSplitBill prev"
  shows "removeParticipant i s =
           Inr (s\<lparr>participants := filter (\<lambda>p. p_id p \<noteq> i) (participants s),
                  currentTransaction :=
                    Some (prev\<lparr>contributions := recalculateSplitBill (participants s) (amount prev)\<rparr>)\<rparr>)"
  using assms by (simp add: removeParticipant_def)

lemma removeParticipant_custom:
  assumes "currentTransaction s = Some prev" and "\<not> isSplitBill prev"
  shows "removeParticipant i s =
           Inr (s\<lparr>participants := filter (\<lambda>p. p_id p \<noteq> i) (participants s),
                  currentTransaction := Some (prev\<lparr>contributions := obj_omit i (contributions prev)\<rparr>)\<rparr>)"
  using assms by (simp add: removeParticipant_def)

text \<open>
  Claim C2 fails on the code. With Ann and Bob registered, the amount 100 and equal split
  on, removing Ann leaves Bob alone in the list, but the draft's contributions are again
  50.00 for Ann and 50.00 for Bob: the removed id is back and the divisor is 2. The
  split over the remaining participants, which the claim describes, is 100.00 for Bob.
\<close>

theorem removeParticipant_split_stale:
  "removeParticipant ''A'' split_state =
     Inr \<lparr>participants = [bob], transactions = [], newParticipant = [],
          currentTransaction =
            Some \<lparr>t_id = [], title = [], amount = ''100'', payer = [],
                  contributions = [(''A'', ''50.00''), (''B'', ''50.00'')], isSplitBill = True\<rparr>,
          editingTransactionId = None\<rparr>
   \<and> recalculateSplitBill [bob] ''100'' = [(''B'', ''100.00'')]"
  by code_simp

text \<open>
  \<open>addParticipant\<close> writes one entry, that of the new participant; the entries of the
  others stay as they were.
\<close>

lemma addParticipant_contributions:
  assumes "currentTransaction s = Some prev" and "trim (newParticipant s) \<noteq> []"
  shows "\<exists>s' d. addParticipant now s = Inr s' \<and> currentTransaction s' = Some d \<and>
           participants s' =
             participants s @ [\<lparr>p_id = int_toString now, p_name = trim (newParticipant s)\<rparr>] \<and>
           (\<forall>k. k \<noteq> int_toString now \<longrightarrow>
                obj_get (contributions d) k = obj_get (contributions prev) k) \<and>
           obj_get (contributions d) (int_toString now) =
             Some (if isSplitBill prev
                   then toFixed2 (js_div (parseFloat (amount prev))
                                         (of_count (length (participants s) + 1)))
                   else [])"
  using assms by (simp add: addParticipant_def Let_def obj_set_get)

text \<open>
  Claim C3 fails on the code. With Ann registered, the amount 100 and equal split on,
  adding Bob gives the new participant 50.00, the amount over the new count, and leaves
  Ann at 100.00. The split over the new set, which the claim describes, is 50.00 each.
\<close>

theorem addParticipant_split_partial:
  "addParticipant 1700000000000 solo_state =
     Inr \<lparr>participants = [ann, \<lparr>p_id = ''1700000000000'', p_name = ''Bob''\<rparr>],
          transactions = [], newParticipant = [],
          currentTransaction =
            Some \<lparr>t_id = [], title = [], amount = ''100'', payer = [],
                  contributions = [(''A'', ''100.00''), (''1700000000000'', ''50.00'')],
                  isSplitBill = True\<rparr>,
          editingTransactionId = None\<rparr>
   \<and> recalculateSplitBill [ann, \<lparr>p_id = ''1700000000000'', p_name = ''Bob''\<rparr>] ''100''
        = [(''A'', ''50.00''), (''1700000000000'', ''50.00'')]"
  by code_simp

section \<open>The balance summary\<close>

lemma add_assign_get:
  "obj_get (add_assign k v sm) k' =
     (if k' = k then plus_number k (obj_get sm k) v else obj_get sm k')"
  by (simp add: add_assign_def plus_number_def obj_set_get
      split: option.splits summary_value.splits)

lemma sub_assign_get:
  "obj_get (sub_assign k v sm) k' =
     (if k' = k then minus_number k (obj_get sm k) v else obj_get sm k')"
  by (simp add: sub_assign_def minus_number_def obj_set_get
      split: option.splits summary_value.splits)

lemma foldl_sub_assign_get:
  "obj_get (foldl (\<lambda>sm e. sub_assign (fst e) (or_zero (parseFloat (snd e))) sm) sm0 es) k =
     foldl (\<lambda>b e. minus_number k b (or_zero (parseFloat (snd e))))
           (obj_get sm0 k) (filter (\<lambda>e. fst e = k) es)"
  by (induction es arbitrary: sm0) (simp_all add: sub_assign_get)

lemma filter_key_distinct:
  "distinct (map fst es) \<Longrightarrow>
   filter (\<lambda>e. fst e = k) es = (case obj_get es k of None \<Rightarrow> [] | Some c \<Rightarrow> [(k, c)])"
  unfolding obj_get_def
proof (induction es)
  case Nil
  then show ?case by simp
next
  case (Cons e es)
  show ?case
  proof (cases "fst e = k")
    case True
    with Cons.prems have "k \<notin> fst ` set es" by auto
    then have "filter (\<lambda>e. fst e = k) es = []"
      by (auto simp: filter_empty_conv)
    with True show ?thesis by (cases e) auto
  next
    case False
    with Cons show ?thesis by (cases e) auto
  qed
qed

lemma summarize_transaction_get:
  assumes "distinct (obj_keys (contributions t))"
  shows "obj_get (summarize_transaction sm t) k = balance_step k (obj_get sm k) t"
proof -
  have d: "distinct (map fst (contributions t))"
    using assms by (simp add: obj_keys_def)
  define sm1 where "sm1 =
    (if payer t \<noteq> [] then add_assign (payer t) (or_zero (parseFloat (amount t))) sm else sm)"
  have b1: "obj_get sm1 k =
      (if payer t \<noteq> [] \<and> payer t = k
       then plus_number k (obj_get sm k) (or_zero (parseFloat (amount t)))
       else obj_get sm k)"
    by (auto simp: sm1_def add_assign_get)
  have "obj_get (summarize_transaction sm t) k =
      foldl (\<lambda>b e. minus_number k b (or_zero (parseFloat (snd e))))
            (obj_get sm1 k) (case obj_get (contributions t) k of None \<Rightarrow> [] | Some c \<Rightarrow> [(k, c)])"
    unfolding summarize_transaction_def Let_def sm1_def [symmetric]
    by (simp only: foldl_sub_assign_get filter_key_distinct [OF d])
  also have "\<dots> = balance_step k (obj_get sm k) t"
    unfolding b1 by (simp add: balance_step_def Let_def split: option.splits)
  finally show ?thesis .
qed

lemma foldl_summarize_get:
  "\<forall>t \<in> set ts. distinct (obj_keys (contributions t)) \<Longrightarrow>
   obj_get (foldl summarize_transaction sm ts) k = foldl (balance_step k) (obj_get sm k) ts"
  by (induction ts arbitrary: sm) (simp_all add: summarize_transaction_get)

lemma balance_step_Num: "balance_step k (Some (Num x)) t = Some (Num (balance_number k x t))"
  by (auto simp: balance_step_def balance_number_def plus_number_def minus_number_def Let_def
      split: option.splits)

lemma foldl_balance_Num:
  "foldl (balance_step k) (Some (Num x)) ts = Some (Num (foldl (balance_number k) x ts))"
  by (induction ts arbitrary: x) (simp_all add: balance_step_Num)

lemma balance_number_NaN: "balance_number k NaN t = NaN"
  by (simp add: balance_number_def Let_def js_sub_def split: option.splits)

lemma foldl_balance_number_NaN: "foldl (balance_number k) NaN ts = NaN"
  by (induction ts) (simp_all add: balance_number_NaN)

lemma balance_step_untouched: "\<not> touches k t \<Longrightarrow> balance_step k b t = b"
  by (auto simp: touches_def balance_step_def Let_def split: option.splits)

lemma balance_step_undefined:
  "touches k t \<Longrightarrow> k \<noteq> ''__proto__'' \<Longrightarrow> \<not> inherited_function k \<Longrightarrow>
   balance_step k None t = Some (Num NaN)"
  by (auto simp: touches_def balance_step_def plus_number_def minus_number_def Let_def js_sub_def
      split: option.splits)

lemma balance_step_proto: "balance_step ''__proto__'' None t = None"
  by (simp add: balance_step_def plus_number_def minus_number_def Let_def split: option.splits)

lemma foldl_balance_proto: "foldl (balance_step ''__proto__'') None ts = None"
  by (induction ts) (simp_all add: balance_step_proto)

lemma foldl_balance_undefined:
  assumes "k \<noteq> ''__proto__''" and "\<not> inherited_function k"
  shows "foldl (balance_step k) None ts =
           (if \<exists>t \<in> set ts. touches k t then Some (Num NaN) else None)"
proof (induction ts)
  case Nil
  then show ?case by simp
next
  case (Cons t ts)
  show ?case
  proof (cases "touches k t")
    case True
    then show ?thesis
      by (simp add: balance_step_undefined [OF _ assms] foldl_balance_Num foldl_balance_number_NaN)
  next
    case False
    with Cons show ?thesis by (simp add: balance_step_untouched)
  qed
qed

text \<open>The example of the specification: Ann paid 100, Ann and Bob owe 50 each.\<close>

lemma calculateSummary_example:
  "calculateSummary [ann, bob] [lunch] = [(''A'', Num (Fin 50)), (''B'', Num (Fin (- 50)))]"
  by code_simp

text \<open>
  Ids that name properties of \<open>Object.prototype\<close>, none of them registered: the
  contribution under \<open>__proto__\<close> creates no entry, the payer \<open>toString\<close> gets a string.
\<close>

lemma calculateSummary_inherited_names:
  "calculateSummary [ann] [inherited_names] = [(''A'', Num (Fin 0)), (''toString'', Text)]"
  by code_simp

text \<open>
  Claim C4, as amended. For every participant list and every list of transactions (their
  contributions being objects, with one entry per key), \<open>calculateSummary\<close> starts from
  a balance of 0 for exactly the current participants; for each transaction in turn it
  adds the parsed amount to the payer's entry when the payer field is non-empty, and
  subtracts each contribution's parsed value from the entry of its key, so that the
  balance of a current participant is the number these additions and subtractions give.
  A payer or a contribution key that is not a current participant is not dropped: the
  assignment creates an entry for it in the returned object, and its value is \<open>NaN\<close>.
  Only an id that names a property of \<open>Object.prototype\<close> differs: \<open>__proto__\<close> gets no
  entry, and the name of an inherited function gets what \<open>balance_step\<close> gives, a string
  or \<open>NaN\<close>.
\<close>

theorem calculateSummary_balances:
  assumes "\<forall>t \<in> set ts. distinct (obj_keys (contributions t))"
  shows "obj_get (calculateSummary ps []) k =
           (if k \<in> p_id ` set ps then Some (Num (Fin 0)) else None) \<and>
         obj_get (calculateSummary ps ts) k =
           foldl (balance_step k) (if k \<in> p_id ` set ps then Some (Num (Fin 0)) else None) ts \<and>
         (k \<in> p_id ` set ps \<longrightarrow>
            obj_get (calculateSummary ps ts) k = Some (Num (foldl (balance_number k) (Fin 0) ts))) \<and>
         (k \<notin> p_id ` set ps \<and> k \<noteq> ''__proto__'' \<and> \<not> inherited_function k \<longrightarrow>
            obj_get (calculateSummary ps ts) k =
              (if \<exists>t \<in> set ts. touches k t then Some (Num NaN) else None)) \<and>
         (''__proto__'' \<notin> p_id ` set ps \<longrightarrow>
            obj_get (calculateSummary ps ts) ''__proto__'' = None)"
proof -
  have init: "obj_get (fromEntries (map (\<lambda>p. (p_id p, Num (Fin 0))) ps)) k' =
                (if k' \<in> p_id ` set ps then Some (Num (Fin 0)) else None)" for k'
    by (rule fromEntries_const)
  have all: "obj_get (calculateSummary ps ts) k' =
               foldl (balance_step k') (if k' \<in> p_id ` set ps then Some (Num (Fin 0)) else None) ts"
    for k'
    unfolding calculateSummary_def Let_def
    by (simp only: foldl_summarize_get [OF assms] init)
  have "obj_get (calculateSummary ps []) k =
          (if k \<in> p_id ` set ps then Some (Num (Fin 0)) else None)"
    unfolding calculateSummary_def Let_def by (simp add: init)
  moreover have "k \<in> p_id ` set ps \<longrightarrow>
      obj_get (calculateSummary ps ts) k = Some (Num (foldl (balance_number k) (Fin 0) ts))"
    by (simp add: all foldl_balance_Num)
  moreover have "k \<notin> p_id ` set ps \<and> k \<noteq> ''__proto__'' \<and> \<not> inherited_function k \<longrightarrow>
      obj_get (calculateSummary ps ts) k =
        (if \<exists>t \<in> set ts. touches k t then Some (Num NaN) else None)"
    by (simp add: all foldl_balance_undefined)
  moreover have "''__proto__'' \<notin> p_id ` set ps \<longrightarrow>
      obj_get (calculateSummary ps ts) ''__proto__'' = None"
    by (simp add: all foldl_balance_proto)
  ultimately show ?thesis using all [of k] by blast
qed

text \<open>
  The theorem at the transaction \<open>lunch\<close>: Bob, registered, ends at -50; with Ann alone
  registered, the entry of Bob is \<open>NaN\<close>; and at \<open>inherited_names\<close>, where \<open>__proto__\<close>
  gets no entry.
\<close>

theorem calculateSummary_balances_witness:
  "distinct (obj_keys (contributions lunch)) \<and>
   ''B'' \<in> p_id ` set [ann, bob] \<and>
   obj_get (calculateSummary [ann, bob] [lunch]) ''B'' = Some (Num (Fin (- 50))) \<and>
   ''B'' \<notin> p_id ` set [ann] \<and> ''B'' \<noteq> ''__proto__'' \<and> \<not> inherited_function ''B'' \<and>
   touches ''B'' lunch \<and>
   obj_get (calculateSummary [ann] [lunch]) ''B'' = Some (Num NaN) \<and>
   distinct (obj_keys (contributions inherited_names)) \<and>
   ''__proto__'' \<notin> p_id ` set [ann] \<and> touches ''__proto__'' inherited_names \<and>
   obj_get (calculateSummary [ann] [inherited_names]) ''__proto__'' = None"
proof -
  have wf: "\<forall>t \<in> set [lunch]. distinct (obj_keys (contributions t))"
    by (simp add: lunch_def obj_keys_def)
  have wf2: "\<forall>t \<in> set [inherited_names]. distinct (obj_keys (contributions t))"
    by (simp add: inherited_names_def obj_keys_def)
  have mem: "''B'' \<in> p_id ` set [ann, bob]" by (simp add: ann_def bob_def)
  have nmem: "''B'' \<notin> p_id ` set [ann]" by (simp add: ann_def)
  have pmem: "''__proto__'' \<notin> p_id ` set [ann]" by (simp add: ann_def)
  have ord: "''B'' \<noteq> ''__proto__''" "\<not> inherited_function ''B''"
    by (simp_all add: inherited_function_def)
  have ev: "foldl (balance_number ''B'') (Fin 0) [lunch] = Fin (- 50)" by code_simp
  have tch: "touches ''B'' lunch" by code_simp
  have tch2: "touches ''__proto__'' inherited_names" by code_simp
  from tch have ex: "\<exists>t \<in> set [lunch]. touches ''B'' t" by simp
  note t1 = calculateSummary_balances [OF wf, of "[ann, bob]" "''B''"]
  note t2 = calculateSummary_balances [OF wf, of "[ann]" "''B''"]
  note t3 = calculateSummary_balances [OF wf2, of "[ann]" "''B''"]
  have "obj_get (calculateSummary [ann, bob] [lunch]) ''B'' = Some (Num (Fin (- 50)))"
    using t1 [THEN conjunct2, THEN conjunct2, THEN conjunct1, THEN mp, OF mem]
    by (simp only: ev)
  moreover have "obj_get (calculateSummary [ann] [lunch]) ''B'' = Some (Num NaN)"
    using t2 [THEN conjunct2, THEN conjunct2, THEN conjunct2, THEN conjunct1, THEN mp]
      nmem ord ex
    by (simp only: if_True simp_thms)
  moreover have "obj_get (calculateSummary [ann] [inherited_names]) ''__proto__'' = None"
    using t3 [THEN conjunct2, THEN conjunct2, THEN conjunct2, THEN conjunct2, THEN mp, OF pmem] .
  moreover have "distinct (obj_keys (contributions lunch))"
    using wf by simp
  moreover have "distinct (obj_keys (contributions inherited_names))"
    using wf2 by simp
  ultimately show ?thesis using mem nmem pmem ord tch tch2 by blast
qed

text \<open>
  Claim C4 as stated fails once a participant of a recorded transaction has been removed:
  with only Ann registered, the contribution of Bob creates an entry; with only Bob
  registered, the payer Ann does.
\<close>

theorem calculateSummary_removed_participant:
  "calculateSummary [ann] [lunch] = [(''A'', Num (Fin 50)), (''B'', Num NaN)] \<and>
   calculateSummary [bob] [lunch] = [(''B'', Num (Fin (- 50))), (''A'', Num NaN)]"
  by code_simp

section \<open>The transaction ledger\<close>

lemma edit_state_reachable:
  "updateCurrentTransaction Title ''dinner'' (editTransaction ''1700000000000'' ledger_state)
     = Inr edit_state"
  by code_simp





section \<open>Validation\<close>

lemma js_lt_asym: "js_lt x y \<Longrightarrow> \<not> js_lt y x"
  by (cases x; cases y) auto

lemma js_incomparable: "\<not> js_lt x y \<and> \<not> js_lt y x \<longleftrightarrow> x = y \<or> x = NaN \<or> y = NaN"
  by (cases x; cases y) auto

lemma or_zero_not_NaN: "or_zero x \<noteq> NaN"
  by (simp add: or_zero_def)

text \<open>
  Claim C6, as amended. For every transaction, with the amount parsed (non-numeric as 0)
  and the parsed contribution values (non-numeric as 0) summed in the order of the
  object's keys, \<open>validateContributions\<close> returns the "exceed" message exactly when the
  sum is greater than the amount, the "less than" message exactly when it is smaller, and
  the empty string exactly when the sum equals the amount or the sum is \<open>NaN\<close>. The
  comparison is exact, with no tolerance.
\<close>

theorem validateContributions_outcomes:
  "(validateContributions t = msg_exceed \<longleftrightarrow>
      js_gt (total_contributions t) (or_zero (parseFloat (amount t)))) \<and>
   (validateContributions t = msg_less \<longleftrightarrow>
      js_lt (total_contributions t) (or_zero (parseFloat (amount t)))) \<and>
   (validateContributions t = [] \<longleftrightarrow>
      total_contributions t = or_zero (parseFloat (amount t)) \<or> total_contributions t = NaN)"
proof -
  have m: "msg_exceed \<noteq> msg_less" "msg_exceed \<noteq> []" "msg_less \<noteq> []"
    by (simp_all add: msg_exceed_def msg_less_def)
  show ?thesis
    using m js_lt_asym [of "total_contributions t" "or_zero (parseFloat (amount t))"]
      js_incomparable [of "total_contributions t" "or_zero (parseFloat (amount t))"]
      or_zero_not_NaN [of "parseFloat (amount t)"]
    by (auto simp: validateContributions_def Let_def js_gt_def)
qed

text \<open>The three outcomes, at the amounts 100, 100.01 and 99.99 against 50 + 50.\<close>

theorem validateContributions_outcomes_witness:
  "validateContributions lunch = [] \<and>
   total_contributions lunch = or_zero (parseFloat (amount lunch)) \<and>
   validateContributions (lunch\<lparr>amount := ''100.01''\<rparr>) = msg_less \<and>
   validateContributions (lunch\<lparr>amount := ''99.99''\<rparr>) = msg_exceed"
proof -
  have e1: "total_contributions lunch = or_zero (parseFloat (amount lunch))" by code_simp
  have e2: "js_lt (total_contributions (lunch\<lparr>amount := ''100.01''\<rparr>))
              (or_zero (parseFloat (amount (lunch\<lparr>amount := ''100.01''\<rparr>))))" by code_simp
  have e3: "js_gt (total_contributions (lunch\<lparr>amount := ''99.99''\<rparr>))
              (or_zero (parseFloat (amount (lunch\<lparr>amount := ''99.99''\<rparr>))))" by code_simp
  from validateContributions_outcomes [of lunch] e1
  have "validateContributions lunch = []" by blast
  moreover from validateContributions_outcomes [of "lunch\<lparr>amount := ''100.01''\<rparr>"] e2
  have "validateContributions (lunch\<lparr>amount := ''100.01''\<rparr>) = msg_less" by blast
  moreover from validateContributions_outcomes [of "lunch\<lparr>amount := ''99.99''\<rparr>"] e3
  have "validateContributions (lunch\<lparr>amount := ''99.99''\<rparr>) = msg_exceed" by blast
  ultimately show ?thesis using e1 by blast
qed

text \<open>
  Claim C6 as stated fails where contributions parse to infinities of both signs: the sum
  is \<open>NaN\<close>, which is neither greater nor smaller than the amount 100, and the empty
  string is returned although the sum is not equal to the amount.
\<close>

theorem validateContributions_opposite_infinities:
  "validateContributions unbounded = [] \<and> total_contributions unbounded = NaN \<and>
   or_zero (parseFloat (amount unbounded)) = Fin 100"
  by code_simp

text \<open>
  Exact comparison of doubles: 0.1 + 0.2 is greater than 0.3.
\<close>

lemma validateContributions_exact:
  "validateContributions (lunch\<lparr>amount := ''0.3'', contributions := [(''A'', ''0.1''), (''B'', ''0.2'')]\<rparr>)
     = msg_exceed"
  by code_simp

section \<open>Submitting and deleting\<close>

lemma empty_draft_fields:
  "t_id (empty_draft ps) = [] \<and> title (empty_draft ps) = [] \<and> amount (empty_draft ps) = [] \<and>
   payer (empty_draft ps) = [] \<and> \<not> isSplitBill (empty_draft ps)"
  by (simp add: empty_draft_def)

lemma empty_draft_keys:
  "distinct (obj_keys (contributions (empty_draft ps))) \<and>
   set (obj_keys (contributions (empty_draft ps))) = p_id ` set ps"
  by (simp add: empty_draft_def fromEntries_distinct fromEntries_keys image_image)

lemma empty_draft_get:
  "obj_get (contributions (empty_draft ps)) k = (if k \<in> p_id ` set ps then Some [] else None)"
  by (simp add: empty_draft_def fromEntries_const)

lemma submitTransaction_edit:
  "currentTransaction s = Some cur \<Longrightarrow> editing s = Some e \<Longrightarrow>
   submitTransaction now s =
     Inr (s\<lparr>transactions := map (\<lambda>t. if t_id t = e then cur\<lparr>t_id := e\<rparr> else t) (transactions s),
            editingTransactionId := None,
            currentTransaction := Some (empty_draft (participants s))\<rparr>)"
  by (simp add: submitTransaction_def)

lemma submitTransaction_create:
  "currentTransaction s = Some cur \<Longrightarrow> editing s = None \<Longrightarrow>
   submitTransaction now s =
     Inr (s\<lparr>transactions := transactions s @ [cur\<lparr>t_id := int_toString now\<rparr>],
            currentTransaction := Some (empty_draft (participants s))\<rparr>)"
  by (simp add: submitTransaction_def)

lemma map_t_id_replace:
  "map t_id (map (\<lambda>t. if t_id t = e then cur\<lparr>t_id := e\<rparr> else t) ts) = map t_id ts"
  by (induction ts) auto

text \<open>
  Claim C7, as amended. For every state with a draft: when the edit id is set (neither
  \<open>null\<close> nor empty), \<open>submitTransaction\<close> replaces, in place, every transaction bearing
  that id by the draft with that id, so that the ids of the ledger and their order stay
  as they were, and clears the edit id; when no edit id is set, it appends the draft to
  the end of the ledger under the id \<open>Date.now().toString()\<close>. That id is not checked
  against the ledger: the ids stay distinct provided the clock reading is not already the
  id of a transaction.
\<close>

theorem submitTransaction_ledger:
  assumes "currentTransaction s = Some cur"
  shows "\<exists>s'. submitTransaction now s = Inr s' \<and>
           (\<forall>e. editing s = Some e \<longrightarrow>
              transactions s' = map (\<lambda>t. if t_id t = e then cur\<lparr>t_id := e\<rparr> else t) (transactions s) \<and>
              map t_id (transactions s') = map t_id (transactions s) \<and>
              editingTransactionId s' = None) \<and>
           (editing s = None \<longrightarrow>
              transactions s' = transactions s @ [cur\<lparr>t_id := int_toString now\<rparr>] \<and>
              editingTransactionId s' = editingTransactionId s \<and>
              (distinct (map t_id (transactions s)) \<and> int_toString now \<notin> t_id ` set (transactions s)
                 \<longrightarrow> distinct (map t_id (transactions s'))))"
proof (cases "editing s")
  case None
  with assms show ?thesis
    by (simp add: submitTransaction_create)
next
  case (Some e)
  with assms show ?thesis
    by (simp add: submitTransaction_edit map_t_id_replace)
qed

text \<open>
  The theorem in edit mode, where \<open>dinner\<close> takes the place of \<open>lunch\<close>, and in create
  mode at a clock reading that differs from the id of \<open>lunch\<close>.
\<close>

theorem submitTransaction_ledger_witness:
  "currentTransaction edit_state = Some dinner \<and> editing edit_state = Some ''1700000000000'' \<and>
   (\<exists>s'. submitTransaction 1700000000500 edit_state = Inr s' \<and> transactions s' = [dinner] \<and>
          editingTransactionId s' = None) \<and>
   currentTransaction ledger_state = Some (empty_draft [ann, bob]) \<and> editing ledger_state = None \<and>
   distinct (map t_id (transactions ledger_state)) \<and>
   int_toString 1700000000500 \<notin> t_id ` set (transactions ledger_state) \<and>
   (\<exists>s'. submitTransaction 1700000000500 ledger_state = Inr s' \<and>
          transactions s' = [lunch, (empty_draft [ann, bob])\<lparr>t_id := ''1700000000500''\<rparr>] \<and>
          distinct (map t_id (transactions s')))"
proof -
  have c1: "currentTransaction edit_state = Some dinner" by (simp add: edit_state_def)
  have g1: "editing edit_state = Some ''1700000000000''" by (simp add: edit_state_def editing_def)
  have r1: "map (\<lambda>t. if t_id t = ''1700000000000'' then dinner\<lparr>t_id := ''1700000000000''\<rparr> else t)
              (transactions edit_state) = [dinner]"
    by (simp add: edit_state_def dinner_def lunch_def)
  have c2: "currentTransaction ledger_state = Some (empty_draft [ann, bob])"
    by (simp add: ledger_state_def)
  have g2: "editing ledger_state = None" by (simp add: ledger_state_def editing_def)
  have d2: "distinct (map t_id (transactions ledger_state))" by (simp add: ledger_state_def)
  have i2: "int_toString 1700000000500 = ''1700000000500''" by code_simp
  have n2: "int_toString 1700000000500 \<notin> t_id ` set (transactions ledger_state)"
    unfolding i2 by (simp add: ledger_state_def lunch_def)
  have tr: "transactions ledger_state = [lunch]" by (simp add: ledger_state_def)
  from submitTransaction_ledger [OF c1, of 1700000000500] g1 r1
  have "\<exists>s'. submitTransaction 1700000000500 edit_state = Inr s' \<and> transactions s' = [dinner] \<and>
          editingTransactionId s' = None"
    by auto
  moreover from submitTransaction_ledger [OF c2, of 1700000000500] g2 d2 n2
  have "\<exists>s'. submitTransaction 1700000000500 ledger_state = Inr s' \<and>
          transactions s' = [lunch, (empty_draft [ann, bob])\<lparr>t_id := ''1700000000500''\<rparr>] \<and>
          distinct (map t_id (transactions s'))"
    unfolding i2 tr by auto
  ultimately show ?thesis using c1 g1 c2 g2 d2 n2 by blast
qed

text \<open>
  Claim C7 as stated fails in create mode when the clock reads what it read at an earlier
  submit: the appended transaction bears the id of \<open>lunch\<close>.
\<close>

theorem submitTransaction_same_tick:
  "submitTransaction 1700000000000 ledger_state =
     Inr \<lparr>participants = [ann, bob],
          transactions = [lunch, (empty_draft [ann, bob])\<lparr>t_id := ''1700000000000''\<rparr>],
          newParticipant = [],
          currentTransaction = Some (empty_draft [ann, bob]), editingTransactionId = None\<rparr>
   \<and> t_id lunch = ''1700000000000''"
  by code_simp

text \<open>
  Claim C8. After \<open>submitTransaction\<close>, from every state with a draft and in either mode,
  the draft is the empty template: empty id, title, amount and payer, \<open>isSplitBill\<close>
  false, and contributions holding exactly one entry, the empty string, per participant
  of the registry, which the call leaves unchanged.
\<close>

theorem submitTransaction_resets_draft:
  assumes "currentTransaction s = Some cur"
  shows "\<exists>s' d. submitTransaction now s = Inr s' \<and> participants s' = participants s \<and>
           currentTransaction s' = Some d \<and>
           t_id d = [] \<and> title d = [] \<and> amount d = [] \<and> payer d = [] \<and> \<not> isSplitBill d \<and>
           distinct (obj_keys (contributions d)) \<and>
           set (obj_keys (contributions d)) = p_id ` set (participants s') \<and>
           (\<forall>p \<in> set (participants s'). obj_get (contributions d) (p_id p) = Some [])"
proof (cases "editing s")
  case None
  with assms show ?thesis
    by (simp add: submitTransaction_create empty_draft_fields empty_draft_keys empty_draft_get)
next
  case (Some e)
  with assms show ?thesis
    by (simp add: submitTransaction_edit empty_draft_fields empty_draft_keys empty_draft_get)
qed

text \<open>The theorem at a submit in edit mode, with Ann and Bob registered.\<close>

theorem submitTransaction_resets_draft_witness:
  "currentTransaction edit_state = Some dinner \<and>
   (\<exists>s' d. submitTransaction 1700000000500 edit_state = Inr s' \<and>
      participants s' = [ann, bob] \<and> currentTransaction s' = Some d \<and>
      title d = [] \<and> amount d = [] \<and> \<not> isSplitBill d \<and>
      set (obj_keys (contributions d)) = {''A'', ''B''} \<and>
      obj_get (contributions d) ''A'' = Some [] \<and> obj_get (contributions d) ''B'' = Some [])"
proof -
  have c1: "currentTransaction edit_state = Some dinner" by (simp add: edit_state_def)
  have ps: "participants edit_state = [ann, bob]" by (simp add: edit_state_def)
  have ids: "p_id ann = ''A''" "p_id bob = ''B''" by (simp_all add: ann_def bob_def)
  from submitTransaction_resets_draft [OF c1, of 1700000000500]
  obtain s' d where r: "submitTransaction 1700000000500 edit_state = Inr s'"
    and p: "participants s' = participants edit_state"
    and c: "currentTransaction s' = Some d"
    and f: "title d = []" "amount d = []" "\<not> isSplitBill d"
    and k: "set (obj_keys (contributions d)) = p_id ` set (participants s')"
    and g: "\<forall>p \<in> set (participants s'). obj_get (contributions d) (p_id p) = Some []"
    by blast
  have "set (obj_keys (contributions d)) = {''A'', ''B''}"
    using k by (simp add: p ps ids)
  moreover have "obj_get (contributions d) ''A'' = Some []" "obj_get (contributions d) ''B'' = Some []"
    using g by (simp_all add: p ps ids)
  ultimately show ?thesis using c1 r p ps c f by auto
qed

text \<open>
  Claim C9. For every id, \<open>deleteTransaction\<close> removes the transactions bearing that id
  and keeps all others in their order (nothing changes when no transaction bears it); the
  edit id, the draft, the participants and the typed name are unchanged, whether or not
  the deleted transaction is the one being edited.
\<close>

theorem deleteTransaction_frame:
  "transactions (deleteTransaction i s) = filter (\<lambda>t. t_id t \<noteq> i) (transactions s) \<and>
   subseq (transactions (deleteTransaction i s)) (transactions s) \<and>
   (\<forall>t \<in> set (transactions (deleteTransaction i s)). t_id t \<noteq> i) \<and>
   (\<forall>t \<in> set (transactions s). t_id t \<noteq> i \<longrightarrow> t \<in> set (transactions (deleteTransaction i s))) \<and>
   (i \<notin> t_id ` set (transactions s) \<longrightarrow> deleteTransaction i s = s) \<and>
   editingTransactionId (deleteTransaction i s) = editingTransactionId s \<and>
   currentTransaction (deleteTransaction i s) = currentTransaction s \<and>
   participants (deleteTransaction i s) = participants s \<and>
   newParticipant (deleteTransaction i s) = newParticipant s"
proof -
  have "i \<notin> t_id ` set (transactions s) \<Longrightarrow> filter (\<lambda>t. t_id t \<noteq> i) (transactions s) = transactions s"
    by (rule filter_True) auto
  then show ?thesis
    by (auto simp: deleteTransaction_def)
qed

text \<open>
  The theorem at the deletion of the transaction being edited, and at an id that no
  transaction bears.
\<close>

theorem deleteTransaction_frame_witness:
  "transactions (deleteTransaction ''1700000000000'' edit_state) = [] \<and>
   editingTransactionId (deleteTransaction ''1700000000000'' edit_state) = Some ''1700000000000'' \<and>
   currentTransaction (deleteTransaction ''1700000000000'' edit_state) = Some dinner \<and>
   ''1700000000001'' \<notin> t_id ` set (transactions edit_state) \<and>
   deleteTransaction ''1700000000001'' edit_state = edit_state"
proof -
  have a: "''1700000000001'' \<notin> t_id ` set (transactions edit_state)"
    by (simp add: edit_state_def lunch_def)
  have f: "filter (\<lambda>t. t_id t \<noteq> ''1700000000000'') (transactions edit_state) = []"
    by (simp add: edit_state_def lunch_def)
  have e: "editingTransactionId edit_state = Some ''1700000000000''"
    "currentTransaction edit_state = Some dinner"
    by (simp_all add: edit_state_def)
  from deleteTransaction_frame [of "''1700000000000''" edit_state]
    deleteTransaction_frame [of "''1700000000001''" edit_state] a f e
  show ?thesis by simp
qed



end
